theory Spec2Isabelle
  imports Complex_Main "HOL-Library.Sublist"
begin

section \<open>Values of the JavaScript runtime\<close>

text \<open>
  The component \<^verbatim>\<open>PlantIdentifier.jsx\<close> handles values decoded from JSON: the body of
  the HTTP response and the completion text decoded by \<^verbatim>\<open>JSON.parse\<close>. A decoded value
  is one of the six JSON kinds. An object is the list of its own properties, each key
  once (the decoder has resolved duplicate keys). A number is the rational value of the
  decoded number; only whether it is zero matters to the component.
  Strings are lists of characters; the whitespace of \<^verbatim>\<open>trim\<close> is the whitespace
  and line terminators of ECMAScript among the 8-bit characters.
\<close>

datatype json =
    JNull
  | JBool bool
  | JNum rat
  | JStr string
  | JArr "json list"
  | JObj "(string \<times> json) list"

text \<open>ToBoolean on a decoded value.\<close>

fun truthy :: "json \<Rightarrow> bool" where
  "truthy JNull = False"
| "truthy (JBool b) = b"
| "truthy (JNum n) = (n \<noteq> 0)"
| "truthy (JStr s) = (s \<noteq> [])"
| "truthy (JArr xs) = True"
| "truthy (JObj kvs) = True"

text \<open>
  The result of a property read is \<open>None\<close> for \<^verbatim>\<open>undefined\<close>. ToBoolean of
  \<^verbatim>\<open>undefined\<close> is false.
\<close>

fun truthy_opt :: "json option \<Rightarrow> bool" where
  "truthy_opt None = False"
| "truthy_opt (Some v) = truthy v"

text \<open>
  \<^verbatim>\<open>v.k\<close> on a value \<open>v\<close> that is not \<^verbatim>\<open>null\<close>, for the keys the component reads
  (\<^verbatim>\<open>error\<close>, \<^verbatim>\<open>message\<close>, \<^verbatim>\<open>candidates\<close>, \<^verbatim>\<open>content\<close>, \<^verbatim>\<open>parts\<close>, \<^verbatim>\<open>text\<close>,
  \<^verbatim>\<open>name\<close>, \<^verbatim>\<open>scientificName\<close>, \<^verbatim>\<open>confidence\<close>, \<^verbatim>\<open>toxicity\<close>): an object gives its own
  property, and the prototypes of booleans, numbers, strings and arrays define none of
  these keys. Reading a property of \<^verbatim>\<open>null\<close> raises a TypeError; each caller handles
  that case before it calls \<open>get_prop\<close>.
\<close>

fun get_prop :: "json \<Rightarrow> string \<Rightarrow> json option" where
  "get_prop (JObj kvs) k = map_of kvs k"
| "get_prop v k = None"

text \<open>\<^verbatim>\<open>v[0]\<close> on a value that is not \<^verbatim>\<open>null\<close>.\<close>

fun elem0 :: "json \<Rightarrow> json option" where
  "elem0 (JArr xs) = (case xs of [] \<Rightarrow> None | x # r \<Rightarrow> Some x)"
| "elem0 (JStr s) = (case s of [] \<Rightarrow> None | c # r \<Rightarrow> Some (JStr [c]))"
| "elem0 (JObj kvs) = map_of kvs ''0''"
| "elem0 v = None"

text \<open>
  Optional chaining \<^verbatim>\<open>a?.b\<close>: when \<open>a\<close> is \<^verbatim>\<open>undefined\<close> or \<^verbatim>\<open>null\<close> the result is
  \<^verbatim>\<open>undefined\<close>, otherwise the access is made.
\<close>

fun opt_chain :: "json option \<Rightarrow> (json \<Rightarrow> json option) \<Rightarrow> json option" where
  "opt_chain None f = None"
| "opt_chain (Some JNull) f = None"
| "opt_chain (Some v) f = f v"

section \<open>Cleaning the completion text (lines 136 to 139)\<close>

definition is_ws :: "char \<Rightarrow> bool" where
  "is_ws c = (c \<in> {CHR 0x09, CHR 0x0A, CHR 0x0B, CHR 0x0C, CHR 0x0D, CHR 0x20, CHR 0xA0})"

text \<open>\<^verbatim>\<open>String.prototype.trim\<close>.\<close>

definition trim :: "string \<Rightarrow> string" where
  "trim s = rev (dropWhile is_ws (rev (dropWhile is_ws s)))"

text \<open>The optional newline \<^verbatim>\<open>\n?\<close> that ends both patterns: it is taken when present.\<close>

fun eat_nl :: "string \<Rightarrow> string" where
  "eat_nl [] = []"
| "eat_nl (c # cs) = (if c = CHR 0x0A then cs else c # cs)"

text \<open>
  \<^verbatim>\<open>s.replace(/pat\n?/g, '')\<close> for a literal \<open>pat\<close>: the matches are found from left to
  right, a match starts at the first position where \<open>pat\<close> occurs, takes a following
  newline, and the search goes on behind it. Both patterns of the component are not
  empty; the test \<open>pat \<noteq> []\<close> makes the definition total.
\<close>

function remove_all :: "string \<Rightarrow> string \<Rightarrow> string" where
  "remove_all pat [] = []"
| "remove_all pat (c # cs) =
     (if pat \<noteq> [] \<and> prefix pat (c # cs)
      then remove_all pat (eat_nl (drop (length pat) (c # cs)))
      else c # remove_all pat cs)"
  by pat_completeness auto

termination
proof (relation "measure (\<lambda>(pat, s). length s)")
  show "wf (measure (\<lambda>(pat, s). length s))" by simp
next
  fix pat :: string and c cs
  assume "pat \<noteq> [] \<and> prefix pat (c # cs)"
  then have "0 < length pat" by simp
  then have "length (drop (length pat) (c # cs)) < length (c # cs)" by simp
  moreover have "length (eat_nl (drop (length pat) (c # cs))) \<le> length (drop (length pat) (c # cs))"
    by (cases "drop (length pat) (c # cs)") auto
  ultimately show "((pat, eat_nl (drop (length pat) (c # cs))), (pat, c # cs))
          \<in> measure (\<lambda>(pat, s). length s)"
    by simp
next
  fix pat :: string and c :: char and cs
  show "((pat, cs), (pat, c # cs)) \<in> measure (\<lambda>(pat, s). length s)" by simp
qed

definition fence_json :: string where
  "fence_json = ''```json''"

definition fence :: string where
  "fence = ''```''"

text \<open>
  \<^verbatim>\<open>
  let cleanedResponse = textResponse.trim();
  cleanedResponse = cleanedResponse.replace(/```json\n?/g, '');
  cleanedResponse = cleanedResponse.replace(/```\n?/g, '');
  cleanedResponse = cleanedResponse.trim();
  \<close>
\<close>

definition cleanResponse :: "string \<Rightarrow> string" where
  "cleanResponse textResponse =
     trim (remove_all fence (remove_all fence_json (trim textResponse)))"

text \<open>A completion wrapped in code-fence markers: \<^verbatim>\<open>"```json\n" + t + "\n```"\<close>.\<close>

definition fenced :: "string \<Rightarrow> string" where
  "fenced t = fence_json @ [CHR 0x0A] @ t @ [CHR 0x0A] @ fence"

section \<open>What the runtime and the outside world supply\<close>

text \<open>
  A selected file, as far as the component reads it: \<^verbatim>\<open>file.type\<close> and \<^verbatim>\<open>file.size\<close>.
\<close>

record image_file =
  ftype :: string
  fsize :: nat

text \<open>
  A value that is thrown, or with which a promise is rejected. \<open>Error m\<close> is an Error
  object (also a TypeError or a SyntaxError) with the message \<open>m\<close>. The FileReader rejects
  with its error event, which has no \<^verbatim>\<open>message\<close> property.
\<close>

datatype thrown = Error string | ProgressEvent

text \<open>The text of \<^verbatim>\<open>${err.message}\<close> in a template literal.\<close>

fun message_text :: "thrown \<Rightarrow> string" where
  "message_text (Error m) = m"
| "message_text ProgressEvent = ''undefined''"

text \<open>
  The parts of the platform that the component uses and does not define: the key read from
  \<^verbatim>\<open>process.env.REACT_APP_GEMINI_API_KEY\<close> (\<open>None\<close> when undefined), \<^verbatim>\<open>JSON.parse\<close>
  (\<open>None\<close> when it throws), the conversion to a string of a value that is not a string,
  and the messages of the TypeErrors that the engine raises.
\<close>

record platform =
  api_key :: "string option"
  json_parse :: "string \<Rightarrow> json option"
  to_text :: "json \<Rightarrow> string"
  null_read :: "string \<Rightarrow> string"
  not_callable :: "string \<Rightarrow> string"
  not_blob :: string

text \<open>
  What happens outside during one attempt: the FileReader delivers a data URL or fails,
  and \<^verbatim>\<open>fetch\<close> rejects or resolves to a response with \<^verbatim>\<open>ok\<close>, \<^verbatim>\<open>status\<close> and a body that
  \<^verbatim>\<open>response.json()\<close> decodes or rejects.
\<close>

datatype body = BodyJson json | BodyInvalid string

datatype fetch_result = Rejected string | Response bool nat body

record io =
  read_result :: "string option"
  fetched :: fetch_result

text \<open>The calls to the outside that an attempt makes, in order.\<close>

datatype io_call = ReadAsDataURL image_file | HttpPost string string "string option"

section \<open>\<^verbatim>\<open>identifyPlant\<close>, lines 45 to 169\<close>

text \<open>\<^verbatim>\<open>s.split(c)\<close> for a separator of one character.\<close>

fun split_on :: "char \<Rightarrow> string \<Rightarrow> string list" where
  "split_on c [] = [[]]"
| "split_on c (x # xs) =
     (if x = c then [] # split_on c xs
      else (case split_on c xs of [] \<Rightarrow> [[x]] | p # ps \<Rightarrow> (x # p) # ps))"

text \<open>\<^verbatim>\<open>reader.result.split(',')[1]\<close>, \<open>None\<close> when the array has no second element.\<close>

definition base64_part :: "string \<Rightarrow> string option" where
  "base64_part url = (case split_on CHR '','' url of a # b # r \<Rightarrow> Some b | _ \<Rightarrow> None)"

text \<open>
  \<^verbatim>\<open>convertImageToBase64(file)\<close>: the promise resolves from \<^verbatim>\<open>onloadend\<close> or rejects from
  \<^verbatim>\<open>onerror\<close>, which fires first when the read fails. When \<^verbatim>\<open>file\<close> is \<^verbatim>\<open>null\<close>,
  \<^verbatim>\<open>readAsDataURL\<close> throws in the executor and the promise rejects with that TypeError.
\<close>

definition convertImageToBase64 :: "platform \<Rightarrow> io \<Rightarrow> image_file option \<Rightarrow> thrown + string option" where
  "convertImageToBase64 pf w fo =
     (case fo of
        None \<Rightarrow> Inl (Error (not_blob pf))
      | Some f \<Rightarrow>
          (case read_result w of
             None \<Rightarrow> Inl ProgressEvent
           | Some url \<Rightarrow> Inr (base64_part url)))"

text \<open>\<^verbatim>\<open>!GEMINI_API_KEY || GEMINI_API_KEY === ''\<close>\<close>

definition api_key_missing :: "platform \<Rightarrow> bool" where
  "api_key_missing pf = (case api_key pf of None \<Rightarrow> True | Some k \<Rightarrow> k = [] \<or> k = [])"

definition config_error :: thrown where
  "config_error = Error ''Gemini API key is not configured. Please add REACT_APP_GEMINI_API_KEY to your .env file''"

text \<open>The message that the \<^verbatim>\<open>catch\<close> block makes of it.\<close>

definition config_message :: string where
  "config_message = ''Failed to identify plant: Gemini API key is not configured. Please add REACT_APP_GEMINI_API_KEY to your .env file''"

definition apiUrl :: "platform \<Rightarrow> string" where
  "apiUrl pf =
     ''https://generativelanguage.googleapis.com/v1/models/gemini-2.5-flash:generateContent?key=''
       @ (case api_key pf of None \<Rightarrow> ''undefined'' | Some k \<Rightarrow> k)"

text \<open>The decimal digits of a number, as \<^verbatim>\<open>${response.status}\<close> prints them.\<close>

function string_of_nat :: "nat \<Rightarrow> string" where
  "string_of_nat n =
     (if n < 10 then [''0123456789'' ! n]
      else string_of_nat (n div 10) @ [''0123456789'' ! (n mod 10)])"
  by pat_completeness auto

termination
  by (relation "measure id") auto

declare string_of_nat.simps [simp del]

text \<open>A value inside a template literal.\<close>

fun text_of :: "platform \<Rightarrow> json \<Rightarrow> string" where
  "text_of pf (JStr s) = s"
| "text_of pf v = to_text pf v"

text \<open>
  \<^verbatim>\<open>errorData.error?.message || 'Unknown error'\<close>: the read of \<^verbatim>\<open>error\<close> is not
  guarded, so it throws when \<^verbatim>\<open>errorData\<close> is \<^verbatim>\<open>null\<close>.
\<close>

definition upstream_message :: "platform \<Rightarrow> json \<Rightarrow> thrown + string" where
  "upstream_message pf errorData =
     (case errorData of
        JNull \<Rightarrow> Inl (Error (null_read pf ''error''))
      | _ \<Rightarrow>
          (case opt_chain (get_prop errorData ''error'') (\<lambda>e. get_prop e ''message'') of
             None \<Rightarrow> Inr ''Unknown error''
           | Some m \<Rightarrow> Inr (if truthy m then text_of pf m else ''Unknown error'')))"

text \<open>\<^verbatim>\<open>data.candidates?.[0]?.content?.parts?.[0]?.text\<close>\<close>

definition textResponse_of :: "platform \<Rightarrow> json \<Rightarrow> thrown + json option" where
  "textResponse_of pf data =
     (case data of
        JNull \<Rightarrow> Inl (Error (null_read pf ''candidates''))
      | _ \<Rightarrow>
          Inr (opt_chain
                 (opt_chain
                    (opt_chain
                       (opt_chain
                          (opt_chain (get_prop data ''candidates'') elem0)
                          (\<lambda>v. get_prop v ''content''))
                       (\<lambda>v. get_prop v ''parts''))
                    elem0)
                 (\<lambda>v. get_prop v ''text'')))"

text \<open>
  How the \<^verbatim>\<open>try\<close> block ends when nothing is thrown: with \<^verbatim>\<open>setError(plantData.error)\<close>
  and \<^verbatim>\<open>return\<close>, or with \<^verbatim>\<open>setPlantInfo(plantData)\<close>.
\<close>

datatype update = SetError json | SetPlantInfo json

definition incomplete_error :: thrown where
  "incomplete_error = Error ''Incomplete plant data received from API''"

text \<open>
  Lines 152 to 161:
  \<^verbatim>\<open>
  if (plantData.error) { setError(plantData.error); return; }
  if (!plantData.name || !plantData.scientificName) {
    throw new Error('Incomplete plant data received from API');
  }
  setPlantInfo(plantData);
  \<close>
\<close>

definition validatePayload :: "platform \<Rightarrow> json \<Rightarrow> thrown + update" where
  "validatePayload pf plantData =
     (case plantData of
        JNull \<Rightarrow> Inl (Error (null_read pf ''error''))
      | _ \<Rightarrow>
          (if truthy_opt (get_prop plantData ''error'')
           then Inr (SetError (the (get_prop plantData ''error'')))
           else if \<not> truthy_opt (get_prop plantData ''name'')
                   \<or> \<not> truthy_opt (get_prop plantData ''scientificName'')
           then Inl incomplete_error
           else Inr (SetPlantInfo plantData)))"

definition malformed_error :: thrown where
  "malformed_error = Error ''Failed to parse API response. The response may not be valid JSON.''"

text \<open>Lines 136 to 161: clean the text, decode it, validate the decoded value.\<close>

definition parseCompletion :: "platform \<Rightarrow> string \<Rightarrow> thrown + update" where
  "parseCompletion pf textResponse =
     (case json_parse pf (cleanResponse textResponse) of
        None \<Rightarrow> Inl malformed_error
      | Some plantData \<Rightarrow> validatePayload pf plantData)"

definition empty_error :: thrown where
  "empty_error = Error ''No response from Gemini API''"

text \<open>
  Lines 130 to 161. A text that is truthy and not a string has no \<^verbatim>\<open>trim\<close> method, and
  the call throws.
\<close>

definition handleText :: "platform \<Rightarrow> json option \<Rightarrow> thrown + update" where
  "handleText pf textResponse =
     (if \<not> truthy_opt textResponse then Inl empty_error
      else (case textResponse of
              Some (JStr s) \<Rightarrow> parseCompletion pf s
            | _ \<Rightarrow> Inl (Error (not_callable pf ''textResponse.trim''))))"

text \<open>Lines 116 to 161, from the settled \<^verbatim>\<open>fetch\<close> on.\<close>

definition handleResponse :: "platform \<Rightarrow> fetch_result \<Rightarrow> thrown + update" where
  "handleResponse pf r =
     (case r of
        Rejected m \<Rightarrow> Inl (Error m)
      | Response ok status b \<Rightarrow>
          (if \<not> ok then
             (case upstream_message pf (case b of BodyJson d \<Rightarrow> d | BodyInvalid m \<Rightarrow> JObj []) of
                Inl e \<Rightarrow> Inl e
              | Inr msg \<Rightarrow>
                  Inl (Error (''API request failed with status '' @ string_of_nat status
                               @ '': '' @ msg)))
           else
             (case b of
                BodyInvalid m \<Rightarrow> Inl (Error m)
              | BodyJson data \<Rightarrow>
                  (case textResponse_of pf data of
                     Inl e \<Rightarrow> Inl e
                   | Inr t \<Rightarrow> handleText pf t))))"

text \<open>
  The file read that \<^verbatim>\<open>convertImageToBase64\<close> starts: none when \<^verbatim>\<open>file\<close> is
  \<^verbatim>\<open>null\<close>, since \<^verbatim>\<open>readAsDataURL\<close> throws on it.
\<close>

definition read_calls :: "image_file option \<Rightarrow> io_call list" where
  "read_calls fo = (case fo of None \<Rightarrow> [] | Some f \<Rightarrow> [ReadAsDataURL f])"

text \<open>
  The \<^verbatim>\<open>try\<close> block, with the calls it makes to the outside. The request is sent only
  after the read has succeeded, so \<^verbatim>\<open>file\<close> is not \<^verbatim>\<open>null\<close> where \<^verbatim>\<open>file.type\<close> is read.
\<close>

definition identifyPlant_try :: "platform \<Rightarrow> io \<Rightarrow> image_file option \<Rightarrow> io_call list \<times> (thrown + update)" where
  "identifyPlant_try pf w fo =
     (if api_key_missing pf then ([], Inl config_error)
      else (case convertImageToBase64 pf w fo of
              Inl e \<Rightarrow> (read_calls fo, Inl e)
            | Inr base64Image \<Rightarrow>
                (read_calls fo
                   @ [HttpPost (apiUrl pf) (case fo of None \<Rightarrow> [] | Some f \<Rightarrow> ftype f) base64Image],
                 handleResponse pf (fetched w))))"

text \<open>
  The \<^verbatim>\<open>catch\<close> block: \<^verbatim>\<open>setError(`Failed to identify plant: ${err.message}`)\<close>.
\<close>

fun catch_error :: "thrown + update \<Rightarrow> update" where
  "catch_error (Inl err) = SetError (JStr (''Failed to identify plant: '' @ message_text err))"
| "catch_error (Inr u) = u"

text \<open>One attempt: the calls it makes and the state update it ends with.\<close>

definition identifyPlant :: "platform \<Rightarrow> io \<Rightarrow> image_file option \<Rightarrow> io_call list \<times> update" where
  "identifyPlant pf w fo =
     (case identifyPlant_try pf w fo of (calls, r) \<Rightarrow> (calls, catch_error r))"

section \<open>The state of the component and its handlers\<close>

text \<open>The five \<^verbatim>\<open>useState\<close> cells of lines 5 to 9; \<open>None\<close> is \<^verbatim>\<open>null\<close>.\<close>

record component =
  selectedImage :: "image_file option"
  imagePreview :: "string option"
  plantInfo :: "json option"
  error :: "json option"
  loading :: bool

fun apply_update :: "update \<Rightarrow> component \<Rightarrow> component" where
  "apply_update (SetError e) st = st\<lparr>error := Some e\<rparr>"
| "apply_update (SetPlantInfo d) st = st\<lparr>plantInfo := Some d\<rparr>"

text \<open>Lines 46 and 47, at the start of every attempt.\<close>

definition identifyPlant_start :: "component \<Rightarrow> component" where
  "identifyPlant_start st = st\<lparr>loading := True, error := None\<rparr>"

text \<open>The end of an attempt: its update, then \<^verbatim>\<open>setLoading(false)\<close> of the \<^verbatim>\<open>finally\<close> block.\<close>

definition identifyPlant_finish :: "update \<Rightarrow> component \<Rightarrow> component" where
  "identifyPlant_finish u st = (apply_update u st)\<lparr>loading := False\<rparr>"

text \<open>Lines 171 to 176.\<close>

definition resetUpload :: "component \<Rightarrow> component" where
  "resetUpload st = st\<lparr>selectedImage := None, imagePreview := None, plantInfo := None, error := None\<rparr>"

text \<open>
  What the component renders (lines 199, 270, 276, 289 and 386): the upload form while
  there is no preview, otherwise the photo with one of four panels.
\<close>

datatype view = UploadView | LoadingView | ErrorView json | ResultView json | BlankView

definition preview_shown :: "component \<Rightarrow> bool" where
  "preview_shown st = (case imagePreview st of None \<Rightarrow> False | Some url \<Rightarrow> url \<noteq> [])"

definition render :: "component \<Rightarrow> view" where
  "render st =
     (if \<not> preview_shown st then UploadView
      else if loading st then LoadingView
      else (case error st of
              Some e \<Rightarrow>
                (if truthy e then ErrorView e
                 else (case plantInfo st of
                         Some d \<Rightarrow> (if truthy d then ResultView d else BlankView)
                       | None \<Rightarrow> BlankView))
            | None \<Rightarrow>
                (case plantInfo st of
                   Some d \<Rightarrow> (if truthy d then ResultView d else BlankView)
                 | None \<Rightarrow> BlankView)))"





section \<open>The component at run time\<close>

text \<open>
  Besides its state the running component has attempts that wait for the file read or the
  network (each with the file it was called with) and preview readers that have not
  delivered yet.
\<close>

record runtime =
  ui :: component
  in_flight :: "image_file option list"
  readers :: nat

text \<open>
  A call of \<^verbatim>\<open>identifyPlant(file)\<close>. Without a key the \<^verbatim>\<open>throw\<close> of line 51 comes before
  the first \<^verbatim>\<open>await\<close>, so the attempt starts and ends inside the call; otherwise it
  starts and waits.
\<close>

definition call_identifyPlant :: "platform \<Rightarrow> image_file option \<Rightarrow> runtime \<Rightarrow> runtime" where
  "call_identifyPlant pf fo rt =
     (if api_key_missing pf
      then rt\<lparr>ui := identifyPlant_finish (catch_error (Inl config_error)) (identifyPlant_start (ui rt))\<rparr>
      else rt\<lparr>ui := identifyPlant_start (ui rt), in_flight := in_flight rt @ [fo]\<rparr>)"

text \<open>Lines 14 to 31; \<open>None\<close> when \<^verbatim>\<open>e.target.files[0]\<close> is undefined.\<close>

definition handleImageUpload :: "platform \<Rightarrow> image_file option \<Rightarrow> runtime \<Rightarrow> runtime" where
  "handleImageUpload pf fo rt =
     (case fo of
        None \<Rightarrow> rt
      | Some f \<Rightarrow>
          call_identifyPlant pf (Some f)
            (rt\<lparr>ui := (ui rt)\<lparr>selectedImage := Some f, error := None, plantInfo := None\<rparr>,
                readers := Suc (readers rt)\<rparr>))"

text \<open>
  What can happen to the running component: the user chooses a file in the upload form,
  a preview reader delivers (\<open>None\<close> when the read failed), the user presses Try Again on
  the error panel or the reset button beside the photo, or the attempt at some position
  of the waiting list ends, the outside having answered as \<open>w\<close> says. Each is possible
  only when the rendered view offers it.
\<close>

datatype event =
    SelectFile "image_file option"
  | PreviewLoaded "string option"
  | TryAgain
  | ResetClicked
  | Settled nat io

fun step :: "platform \<Rightarrow> event \<Rightarrow> runtime \<Rightarrow> runtime option" where
  "step pf (SelectFile fo) rt =
     (if render (ui rt) = UploadView then Some (handleImageUpload pf fo rt) else None)"
| "step pf (PreviewLoaded r) rt =
     (if 0 < readers rt
      then Some (rt\<lparr>ui := (ui rt)\<lparr>imagePreview := r\<rparr>, readers := readers rt - 1\<rparr>)
      else None)"
| "step pf TryAgain rt =
     (case render (ui rt) of
        ErrorView e \<Rightarrow> Some (call_identifyPlant pf (selectedImage (ui rt)) rt)
      | _ \<Rightarrow> None)"
| "step pf ResetClicked rt =
     (if render (ui rt) \<noteq> UploadView then Some (rt\<lparr>ui := resetUpload (ui rt)\<rparr>) else None)"
| "step pf (Settled i w) rt =
     (if i < length (in_flight rt)
      then Some (rt\<lparr>ui := identifyPlant_finish (snd (identifyPlant pf w (in_flight rt ! i))) (ui rt),
                    in_flight := take i (in_flight rt) @ drop (Suc i) (in_flight rt)\<rparr>)
      else None)"

fun run :: "platform \<Rightarrow> event list \<Rightarrow> runtime \<Rightarrow> runtime option" where
  "run pf [] rt = Some rt"
| "run pf (e # es) rt = (case step pf e rt of None \<Rightarrow> None | Some rt' \<Rightarrow> run pf es rt')"

definition initial :: runtime where
  "initial =
     \<lparr>ui = \<lparr>selectedImage = None, imagePreview = None, plantInfo = None, error = None,
            loading = False\<rparr>,
      in_flight = [], readers = 0\<rparr>"

text \<open>How many of loading, error and result the state holds.\<close>

definition held :: "component \<Rightarrow> nat" where
  "held st =
     (if loading st then 1 else 0) + (if error st \<noteq> None then 1 else 0)
       + (if plantInfo st \<noteq> None then 1 else 0)"

text \<open>
  The same steps for a user who chooses no file while an attempt still waits.
\<close>

fun step_in_turn :: "platform \<Rightarrow> event \<Rightarrow> runtime \<Rightarrow> runtime option" where
  "step_in_turn pf (SelectFile (Some f)) rt =
     (if in_flight rt = [] then step pf (SelectFile (Some f)) rt else None)"
| "step_in_turn pf e rt = step pf e rt"

fun run_in_turn :: "platform \<Rightarrow> event list \<Rightarrow> runtime \<Rightarrow> runtime option" where
  "run_in_turn pf [] rt = Some rt"
| "run_in_turn pf (e # es) rt =
     (case step_in_turn pf e rt of None \<Rightarrow> None | Some rt' \<Rightarrow> run_in_turn pf es rt')"

text \<open>
  The property that holds while files are chosen in turn: either nothing waits, the
  component is not loading and holds at most one of error and result, or one attempt
  waits and the component is loading and holds neither.
\<close>

definition in_turn_inv :: "runtime \<Rightarrow> bool" where
  "in_turn_inv rt =
     (case in_flight rt of
        [] \<Rightarrow> \<not> loading (ui rt) \<and> (error (ui rt) = None \<or> plantInfo (ui rt) = None)
      | [a] \<Rightarrow> loading (ui rt) \<and> error (ui rt) = None \<and> plantInfo (ui rt) = None
      | a # b # r \<Rightarrow> False)"

section \<open>Concrete values for the examples\<close>

text \<open>
  A platform with the messages of V8. Its decoder is \<^verbatim>\<open>JSON.parse\<close> on the three texts
  that the examples decode and fails elsewhere; its conversion to a string is that of
  JavaScript on \<^verbatim>\<open>null\<close>, booleans and objects (the examples convert no other value).
\<close>

definition quoted :: "string \<Rightarrow> string" where
  "quoted s = [CHR 0x27] @ s @ [CHR 0x27]"

definition could_not_message :: string where
  "could_not_message = ''Could not identify plant. Please upload a clearer image of a plant.''"

definition could_not_text :: string where
  \<open>could_not_text = ''{"error": "Could not identify plant. Please upload a clearer image of a plant."}''\<close>

definition monstera_text :: string where
  \<open>monstera_text = ''{"name":"Monstera Deliciosa","scientificName":"Monstera deliciosa","confidence":92}''\<close>

definition monstera :: json where
  "monstera =
     JObj [(''name'', JStr ''Monstera Deliciosa''), (''scientificName'', JStr ''Monstera deliciosa''),
           (''confidence'', JNum 92)]"

definition example_parse :: "string \<Rightarrow> json option" where
  "example_parse s =
     (if s = could_not_text then Some (JObj [(''error'', JStr could_not_message)])
      else if s = monstera_text then Some monstera
      else if s = ''null'' then Some JNull
      else None)"

definition example_text :: "json \<Rightarrow> string" where
  "example_text v =
     (case v of
        JNull \<Rightarrow> ''null''
      | JBool b \<Rightarrow> (if b then ''true'' else ''false'')
      | JObj kvs \<Rightarrow> ''[object Object]''
      | _ \<Rightarrow> [])"

definition example_platform :: platform where
  "example_platform =
     \<lparr>api_key = Some ''example-key'',
      json_parse = example_parse,
      to_text = example_text,
      null_read = (\<lambda>k. ''Cannot read properties of null (reading '' @ quoted k @ '')''),
      not_callable = (\<lambda>f. f @ '' is not a function''),
      not_blob = ''Failed to execute '' @ quoted ''readAsDataURL'' @ '' on '' @ quoted ''FileReader''
                   @ '': parameter 1 is not of type '' @ quoted ''Blob'' @ ''.''\<rparr>"

text \<open>Decoded payloads.\<close>

definition name_only :: json where
  "name_only = JObj [(''name'', JStr ''Rose'')]"

definition bare_payload :: json where
  "bare_payload = JObj [(''name'', JStr ''Rose''), (''scientificName'', JStr ''Rosa'')]"

definition empty_error_payload :: json where
  "empty_error_payload =
     JObj [(''error'', JStr []), (''name'', JStr ''Rose''), (''scientificName'', JStr ''Rosa'')]"

text \<open>
  A photo, its data URL, the response envelope around a completion text, and two answers
  of the outside: the read succeeds and the service answers 200 with a completion, or it
  answers with an error status and a JSON body.
\<close>

definition photo :: image_file where
  "photo = \<lparr>ftype = ''image/png'', fsize = 4\<rparr>"

definition photo_url :: string where
  "photo_url = ''data:image/png;base64,AAAA''"

definition envelope :: "string \<Rightarrow> json" where
  "envelope t =
     JObj [(''candidates'',
            JArr [JObj [(''content'', JObj [(''parts'', JArr [JObj [(''text'', JStr t)]])])]])]"

definition answered :: "string \<Rightarrow> io" where
  "answered t = \<lparr>read_result = Some photo_url, fetched = Response True 200 (BodyJson (envelope t))\<rparr>"

definition refused :: "nat \<Rightarrow> json \<Rightarrow> io" where
  "refused status b =
     \<lparr>read_result = Some photo_url, fetched = Response False status (BodyJson b)\<rparr>"

text \<open>A component that waits for its attempt, with the preview shown.\<close>

definition waiting :: component where
  "waiting =
     \<lparr>selectedImage = Some photo, imagePreview = Some photo_url, plantInfo = None, error = None,
      loading = True\<rparr>"

text \<open>A component whose attempt has failed.\<close>

definition failed :: component where
  "failed =
     \<lparr>selectedImage = Some photo, imagePreview = Some photo_url, plantInfo = None,
      error = Some (JStr ''Failed to identify plant: No response from Gemini API''),
      loading = False\<rparr>"

text \<open>
  Two runs. In \<open>race\<close> the user resets while the first attempt waits and chooses a file
  again; then the first attempt ends with a result and the second with an error. In
  \<open>in_turn\<close> an attempt fails, the user tries again, and the second attempt succeeds.
\<close>

definition race :: "event list" where
  "race =
     [SelectFile (Some photo), PreviewLoaded (Some photo_url), ResetClicked,
      SelectFile (Some photo), PreviewLoaded (Some photo_url),
      Settled 0 (answered monstera_text), Settled 0 (refused 500 (JObj []))]"

definition in_turn :: "event list" where
  "in_turn =
     [SelectFile (Some photo), PreviewLoaded (Some photo_url),
      Settled 0 (refused 500 (JObj [])), TryAgain, Settled 0 (answered monstera_text)]"

section \<open>Cleaning: fences around a completion do not matter\<close>

text \<open>
  Whitespace on both sides of a text does not survive \<open>trim\<close>, and every text is its
  trimmed core between two runs of whitespace.
\<close>

lemma trim_pad:
  assumes "\<forall>c\<in>set w. is_ws c" "\<forall>c\<in>set y. is_ws c"
  shows "trim (w @ x @ y) = trim x"
proof -
  have 1: "dropWhile is_ws (w @ x @ y) = dropWhile is_ws (x @ y)"
    by (rule dropWhile_append2) (use assms(1) in auto)
  show ?thesis
  proof (cases "\<forall>c\<in>set x. is_ws c")
    case True
    have "\<forall>c\<in>set (x @ y). is_ws c" using True assms(2) by auto
    then have "dropWhile is_ws (x @ y) = []" by (simp only: dropWhile_eq_Nil_conv)
    moreover have "dropWhile is_ws x = []" using True by (simp only: dropWhile_eq_Nil_conv)
    ultimately have "trim (w @ x @ y) = []" "trim x = []"
      unfolding trim_def 1 by (simp_all only: rev.simps dropWhile.simps)
    then show ?thesis by simp
  next
    case False
    then have "dropWhile is_ws (x @ y) = dropWhile is_ws x @ y"
      by (auto simp: dropWhile_append1)
    then have "rev (dropWhile is_ws (x @ y)) = rev y @ rev (dropWhile is_ws x)" by simp
    moreover have "dropWhile is_ws (rev y @ rev (dropWhile is_ws x)) = dropWhile is_ws (rev (dropWhile is_ws x))"
      by (rule dropWhile_append2) (use assms(2) in auto)
    ultimately show ?thesis unfolding trim_def 1 by simp
  qed
qed

lemma trim_decomp: "\<exists>w y. (\<forall>c\<in>set w. is_ws c) \<and> (\<forall>c\<in>set y. is_ws c) \<and> t = w @ trim t @ y"
proof -
  let ?d = "dropWhile is_ws t"
  have a: "t = takeWhile is_ws t @ ?d" by simp
  have b: "rev ?d = takeWhile is_ws (rev ?d) @ dropWhile is_ws (rev ?d)" by simp
  then have "?d = rev (dropWhile is_ws (rev ?d)) @ rev (takeWhile is_ws (rev ?d))"
    by (metis rev_append rev_rev_ident)
  then have "t = takeWhile is_ws t @ trim t @ rev (takeWhile is_ws (rev ?d))"
    using a by (simp add: trim_def)
  moreover have "\<forall>c\<in>set (takeWhile is_ws t). is_ws c" by (auto dest: set_takeWhileD)
  moreover have "\<forall>c\<in>set (rev (takeWhile is_ws (rev ?d))). is_ws c" by (auto dest: set_takeWhileD)
  ultimately show ?thesis by blast
qed

lemma remove_all_ws_prefix:
  assumes "\<forall>c\<in>set w. is_ws c" "\<not> is_ws (hd pat)"
  shows "remove_all pat (w @ s) = w @ remove_all pat s"
  using assms(1)
proof (induction w)
  case Nil then show ?case by simp
next
  case (Cons c w)
  have "\<not> (pat \<noteq> [] \<and> prefix pat (c # w @ s))"
  proof
    assume h: "pat \<noteq> [] \<and> prefix pat (c # w @ s)"
    then obtain p ps where "pat = p # ps" by (cases pat) auto
    with h have "p = c" by simp
    with assms(2) \<open>pat = p # ps\<close> Cons.prems show False by simp
  qed
  then show ?case using Cons by auto
qed

lemma remove_all_match:
  assumes "pat \<noteq> []"
  shows "remove_all pat (pat @ rest) = remove_all pat (eat_nl rest)"
proof -
  from assms obtain p ps where p: "pat = p # ps" by (cases pat) auto
  have "remove_all pat (p # (ps @ rest)) = remove_all pat (eat_nl (drop (length pat) (p # (ps @ rest))))"
    using assms p by (subst remove_all.simps(2)) simp
  then show ?thesis using p by simp
qed

lemma remove_all_nomatch:
  "\<not> prefix pat (c # cs) \<Longrightarrow> remove_all pat (c # cs) = c # remove_all pat cs"
  by simp

lemma fj_no_ws: "c \<in> set fence_json \<Longrightarrow> \<not> is_ws c"
  by (auto simp: fence_json_def is_ws_def)

lemma f_no_ws: "c \<in> set fence \<Longrightarrow> \<not> is_ws c"
  by (auto simp: fence_def is_ws_def)

lemma remove_json_fence_only: "remove_all fence_json fence = fence"
  by (simp add: fence_json_def fence_def)

lemma remove_fence_only: "remove_all fence fence = []"
  by (simp add: fence_def)

lemma eat_nl_append: "r \<noteq> [] \<Longrightarrow> eat_nl (r @ z) = eat_nl r @ z"
  by (cases r) auto

lemma eat_nl_ws:
  assumes "\<forall>c\<in>set y. is_ws c"
  shows "\<exists>y'. (\<forall>c\<in>set y'. is_ws c) \<and> eat_nl (y @ fence) = y' @ fence"
proof (cases y)
  case Nil
  then show ?thesis by (simp add: fence_def)
next
  case (Cons a y2)
  show ?thesis
  proof (cases "a = CHR 0x0A")
    case True
    with Cons assms show ?thesis by auto
  next
    case False
    with Cons assms have "eat_nl (y @ fence) = y @ fence" by simp
    with assms show ?thesis by blast
  qed
qed

lemma no_straddle_json:
  assumes "\<not> prefix fence_json s" "\<forall>c\<in>set y. is_ws c"
  shows "\<not> prefix fence_json (s @ y @ fence)"
proof
  assume "prefix fence_json (s @ y @ fence)"
  with assms(1) obtain us where us: "fence_json = s @ us" "prefix us (y @ fence)"
    by (auto simp: prefix_append)
  from us(1) assms(1) have ne: "us \<noteq> []" by auto
  then have l: "last us = CHR ''n''" using us(1) by (metis last_appendR last.simps fence_json_def last_ConsR list.distinct(1))
  show False
  proof (cases y)
    case Nil
    with us(2) have "set us \<subseteq> set fence" by (auto dest: set_mono_prefix)
    moreover have "last us \<in> set us" using ne by simp
    ultimately show False using l by (auto simp: fence_def)
  next
    case (Cons a y2)
    with us(2) ne have "hd us = a" by (cases us) auto
    moreover have "hd us \<in> set us" using ne by simp
    then have "hd us \<in> set fence_json" unfolding us(1) by simp
    ultimately show False using fj_no_ws Cons assms(2) by auto
  qed
qed

lemma remove_json_suffix:
  "\<forall>c\<in>set y. is_ws c \<Longrightarrow>
   \<exists>y'. (\<forall>c\<in>set y'. is_ws c) \<and>
     remove_all fence_json (s @ y @ fence) = remove_all fence_json s @ y' @ fence"
proof (induction s arbitrary: y rule: length_induct)
  case (1 s)
  note ws = "1.prems"
  have hdp: "\<not> is_ws (hd fence_json)" by (simp add: fence_json_def is_ws_def)
  show ?case
  proof (cases s)
    case Nil
    have "remove_all fence_json (y @ fence) = y @ fence"
      using remove_all_ws_prefix [OF ws hdp] remove_json_fence_only by simp
    with Nil ws show ?thesis by auto
  next
    case (Cons c cs)
    show ?thesis
    proof (cases "prefix fence_json s")
      case True
      then obtain rest where rest: "s = fence_json @ rest" by (auto simp: prefix_def)
      have ne: "fence_json \<noteq> []" by (simp add: fence_json_def)
      have a: "remove_all fence_json s = remove_all fence_json (eat_nl rest)"
        unfolding rest by (rule remove_all_match [OF ne])
      have b: "remove_all fence_json (s @ y @ fence) = remove_all fence_json (eat_nl (rest @ y @ fence))"
        unfolding rest append_assoc by (rule remove_all_match [OF ne])
      show ?thesis
      proof (cases "rest = []")
        case True
        from eat_nl_ws [OF ws] obtain y' where y': "\<forall>c\<in>set y'. is_ws c" "eat_nl (y @ fence) = y' @ fence"
          by blast
        have "remove_all fence_json (y' @ fence) = y' @ fence"
          using remove_all_ws_prefix [OF y'(1) hdp] remove_json_fence_only by simp
        with a b True y' show ?thesis by auto
      next
        case False
        have "length (eat_nl rest) < length s" using rest ne
          by (cases rest) (auto)
        with "1.IH" ws obtain y' where "(\<forall>c\<in>set y'. is_ws c)"
          "remove_all fence_json (eat_nl rest @ y @ fence) = remove_all fence_json (eat_nl rest) @ y' @ fence"
          by blast
        with a b False show ?thesis by (auto simp: eat_nl_append)
      qed
    next
      case False
      from no_straddle_json [OF False ws] have "\<not> prefix fence_json (c # cs @ y @ fence)"
        using Cons by simp
      then have a: "remove_all fence_json (s @ y @ fence) = c # remove_all fence_json (cs @ y @ fence)"
        unfolding Cons append_Cons by (rule remove_all_nomatch)
      have b: "remove_all fence_json s = c # remove_all fence_json cs"
        using False unfolding Cons by (rule remove_all_nomatch)
      from "1.IH" ws Cons obtain y' where "(\<forall>c\<in>set y'. is_ws c)"
          "remove_all fence_json (cs @ y @ fence) = remove_all fence_json cs @ y' @ fence"
        by force
      with a b show ?thesis by auto
    qed
  qed
qed

lemma straddle_fence:
  assumes "\<not> prefix fence u" "u \<noteq> []" "\<forall>c\<in>set y. is_ws c" "prefix fence (u @ y @ fence)"
  shows "y = [] \<and> (u = ''`'' \<or> u = ''``'')"
proof -
  from assms(1,4) obtain us where us: "fence = u @ us" "prefix us (y @ fence)"
    by (auto simp: prefix_append)
  from us(1) assms(1) have ne: "us \<noteq> []" by auto
  have "hd us \<in> set us" using ne by simp
  then have h: "hd us \<in> set fence" unfolding us(1) by simp
  have y: "y = []"
  proof (cases y)
    case (Cons a y2)
    with us(2) ne have "hd us = a" by (cases us) auto
    with h f_no_ws Cons assms(3) show ?thesis by auto
  qed simp
  have "length u + length us = 3" using arg_cong [OF us(1), of length] by (simp add: fence_def)
  moreover have "0 < length u" "0 < length us" using ne assms(2) by auto
  ultimately have "length u = 1 \<or> length u = 2" by arith
  moreover have "u = take (length u) fence" unfolding us(1) by simp
  ultimately have "u = ''`'' \<or> u = ''``''" by (auto simp: fence_def)
  with y show ?thesis by simp
qed

lemma remove_fence_suffix:
  "\<forall>c\<in>set y. is_ws c \<Longrightarrow>
   \<exists>y'. (\<forall>c\<in>set y'. is_ws c) \<and>
     remove_all fence (u @ y @ fence) = remove_all fence u @ y'"
proof (induction u arbitrary: y rule: length_induct)
  case (1 u)
  note ws = "1.prems"
  have hdp: "\<not> is_ws (hd fence)" by (simp add: fence_def is_ws_def)
  have ne: "fence \<noteq> []" by (simp add: fence_def)
  show ?case
  proof (cases u)
    case Nil
    have "remove_all fence (y @ fence) = y"
      using remove_all_ws_prefix [OF ws hdp] remove_fence_only by simp
    with Nil ws show ?thesis by auto
  next
    case (Cons c cs)
    show ?thesis
    proof (cases "prefix fence u")
      case True
      then obtain rest where rest: "u = fence @ rest" by (auto simp: prefix_def)
      have a: "remove_all fence u = remove_all fence (eat_nl rest)"
        unfolding rest by (rule remove_all_match [OF ne])
      have b: "remove_all fence (u @ y @ fence) = remove_all fence (eat_nl (rest @ y @ fence))"
        unfolding rest append_assoc by (rule remove_all_match [OF ne])
      show ?thesis
      proof (cases "rest = []")
        case True
        from eat_nl_ws [OF ws] obtain y' where y': "\<forall>c\<in>set y'. is_ws c" "eat_nl (y @ fence) = y' @ fence"
          by blast
        have "remove_all fence (y' @ fence) = y'"
          using remove_all_ws_prefix [OF y'(1) hdp] remove_fence_only by simp
        with a b True y' show ?thesis by auto
      next
        case False
        have "length (eat_nl rest) < length u" using rest ne
          by (cases rest) (auto)
        with "1.IH" ws obtain y' where "(\<forall>c\<in>set y'. is_ws c)"
          "remove_all fence (eat_nl rest @ y @ fence) = remove_all fence (eat_nl rest) @ y'"
          by blast
        with a b False show ?thesis by (auto simp: eat_nl_append)
      qed
    next
      case False
      show ?thesis
      proof (cases "prefix fence (u @ y @ fence)")
        case True
        from straddle_fence [OF False _ ws True] Cons
        have "y = [] \<and> (u = ''`'' \<or> u = ''``'')" by simp
        then have "remove_all fence (u @ y @ fence) = remove_all fence u @ []"
          by (auto simp: fence_def)
        moreover have "\<forall>c\<in>set ([]::string). is_ws c" by simp
        ultimately show ?thesis by blast
      next
        case nop: False
        then have a: "remove_all fence (u @ y @ fence) = c # remove_all fence (cs @ y @ fence)"
          unfolding Cons append_Cons by (rule remove_all_nomatch)
        have b: "remove_all fence u = c # remove_all fence cs"
          using False unfolding Cons by (rule remove_all_nomatch)
        from "1.IH" ws Cons obtain y' where "(\<forall>c\<in>set y'. is_ws c)"
          "remove_all fence (cs @ y @ fence) = remove_all fence cs @ y'"
          by force
        with a b show ?thesis by auto
      qed
    qed
  qed
qed

lemma trim_id: "s \<noteq> [] \<Longrightarrow> \<not> is_ws (hd s) \<Longrightarrow> \<not> is_ws (last s) \<Longrightarrow> trim s = s"
proof -
  assume a: "s \<noteq> []" "\<not> is_ws (hd s)" "\<not> is_ws (last s)"
  then have 1: "dropWhile is_ws s = s" by (cases s) auto
  from a have "rev s \<noteq> []" "\<not> is_ws (hd (rev s))" by (auto simp: hd_rev)
  then have "dropWhile is_ws (rev s) = rev s" by (cases "rev s") auto
  with 1 show ?thesis by (simp add: trim_def)
qed

lemma cleanResponse_fenced: "cleanResponse (fenced t) = cleanResponse t"
proof -
  let ?wrapped = "fence_json @ [CHR 0x0A] @ t @ [CHR 0x0A] @ fence"
  have hdj: "\<not> is_ws (hd fence_json)" by (simp add: fence_json_def is_ws_def)
  have hdf: "\<not> is_ws (hd fence)" by (simp add: fence_def is_ws_def)
  have nej: "fence_json \<noteq> []" by (simp add: fence_json_def)
  have "?wrapped \<noteq> []" by (simp add: fence_json_def)
  moreover have "\<not> is_ws (hd ?wrapped)" by (simp add: fence_json_def is_ws_def)
  moreover have "\<not> is_ws (last ?wrapped)" by (simp add: fence_def is_ws_def)
  ultimately have 1: "trim ?wrapped = ?wrapped" by (rule trim_id)
  have 2: "remove_all fence_json ?wrapped = remove_all fence_json (t @ [CHR 0x0A] @ fence)"
    using remove_all_match [OF nej, of "[CHR 0x0A] @ t @ [CHR 0x0A] @ fence"] by simp
  obtain w y where wy: "\<forall>c\<in>set w. is_ws c" "\<forall>c\<in>set y. is_ws c" "t = w @ trim t @ y"
    using trim_decomp by blast
  let ?m = "trim t"
  have wsy: "\<forall>c\<in>set (y @ [CHR 0x0A]). is_ws c" using wy(2) by (simp add: is_ws_def)
  have "t @ [CHR 0x0A] @ fence = w @ (?m @ (y @ [CHR 0x0A]) @ fence)"
    using wy(3) by (metis append_assoc)
  then have "remove_all fence_json (t @ [CHR 0x0A] @ fence) = w @ remove_all fence_json (?m @ (y @ [CHR 0x0A]) @ fence)"
    using remove_all_ws_prefix [OF wy(1) hdj, of "?m @ (y @ [CHR 0x0A]) @ fence"] by (simp only:)
  moreover obtain y1 where y1: "\<forall>c\<in>set y1. is_ws c"
    "remove_all fence_json (?m @ (y @ [CHR 0x0A]) @ fence) = remove_all fence_json ?m @ y1 @ fence"
    using remove_json_suffix [OF wsy] by blast
  ultimately have 3: "remove_all fence_json ?wrapped = w @ (remove_all fence_json ?m @ y1 @ fence)"
    using 2 by simp
  obtain y2 where y2: "\<forall>c\<in>set y2. is_ws c"
    "remove_all fence (remove_all fence_json ?m @ y1 @ fence) = remove_all fence (remove_all fence_json ?m) @ y2"
    using remove_fence_suffix [OF y1(1)] by blast
  have "remove_all fence (remove_all fence_json ?wrapped) = w @ remove_all fence (remove_all fence_json ?m) @ y2"
    unfolding 3 using remove_all_ws_prefix [OF wy(1) hdf] y2(2) by simp
  then have "cleanResponse ?wrapped = trim (w @ remove_all fence (remove_all fence_json ?m) @ y2)"
    unfolding cleanResponse_def 1 by simp
  also have "\<dots> = trim (remove_all fence (remove_all fence_json ?m))"
    by (rule trim_pad [OF wy(1) y2(1)])
  finally show ?thesis by (simp add: cleanResponse_def fenced_def)
qed


section \<open>Facts about the run of the component\<close>

lemmas example_defs =
  example_platform_def example_parse_def example_text_def could_not_text_def could_not_message_def
  monstera_text_def monstera_def quoted_def photo_def photo_url_def envelope_def answered_def
  refused_def name_only_def empty_error_payload_def bare_payload_def

lemmas attempt_defs =
  identifyPlant_def identifyPlant_try_def api_key_missing_def convertImageToBase64_def
  base64_part_def read_calls_def apiUrl_def handleResponse_def upstream_message_def
  textResponse_of_def handleText_def parseCompletion_def validatePayload_def
  config_error_def incomplete_error_def malformed_error_def empty_error_def
  cleanResponse_def trim_def is_ws_def fence_def fence_json_def

lemmas handler_defs =
  initial_def render_def preview_shown_def handleImageUpload_def call_identifyPlant_def
  identifyPlant_start_def identifyPlant_finish_def resetUpload_def

lemma render_ErrorView:
  "render st = ErrorView e \<Longrightarrow> \<not> loading st \<and> error st = Some e"
  by (auto simp: render_def split: if_splits option.splits)

lemma finish_fresh:
  assumes "error st = None" "plantInfo st = None"
  shows "\<not> loading (identifyPlant_finish u st)"
    and "error (identifyPlant_finish u st) = None \<or> plantInfo (identifyPlant_finish u st) = None"
  using assms by (cases u; simp add: identifyPlant_finish_def)+

lemma call_identifyPlant_inv:
  assumes "in_flight rt = []" "plantInfo (ui rt) = None"
  shows "in_turn_inv (call_identifyPlant pf fo rt)"
  using assms
  by (simp add: in_turn_inv_def call_identifyPlant_def identifyPlant_finish_def identifyPlant_start_def)

lemma inv_loading: "in_turn_inv rt \<Longrightarrow> \<not> loading (ui rt) \<Longrightarrow> in_flight rt = []"
  by (auto simp: in_turn_inv_def split: list.splits)

text \<open>Every step of a run in turn keeps the property.\<close>

lemma step_in_turn_inv:
  assumes "in_turn_inv rt" "step_in_turn pf e rt = Some rt'"
  shows "in_turn_inv rt'"
proof (cases e)
  case (SelectFile fo)
  show ?thesis
  proof (cases fo)
    case None
    with SelectFile assms show ?thesis by (auto simp: handleImageUpload_def split: if_splits)
  next
    case (Some f)
    with SelectFile assms(2) have idle: "in_flight rt = []"
      and rt': "rt' = handleImageUpload pf (Some f) rt"
      by (auto split: if_splits)
    show ?thesis unfolding rt' handleImageUpload_def
      using idle by (simp add: call_identifyPlant_inv)
  qed
next
  case (PreviewLoaded r)
  with assms show ?thesis by (auto simp: in_turn_inv_def split: if_splits list.splits)
next
  case TryAgain
  with assms(2) obtain e' where v: "render (ui rt) = ErrorView e'"
    and rt': "rt' = call_identifyPlant pf (selectedImage (ui rt)) rt"
    by (auto split: view.splits)
  from render_ErrorView [OF v] have nl: "\<not> loading (ui rt)" and er: "error (ui rt) = Some e'"
    by auto
  from inv_loading [OF assms(1) nl] have idle: "in_flight rt = []" .
  with assms(1) er have "plantInfo (ui rt) = None" by (simp add: in_turn_inv_def)
  with idle show ?thesis unfolding rt' by (rule call_identifyPlant_inv)
next
  case ResetClicked
  with assms show ?thesis
    by (auto simp: in_turn_inv_def resetUpload_def split: if_splits list.splits)
next
  case (Settled i w)
  with assms(2) have i: "i < length (in_flight rt)"
    and rt': "rt' = rt\<lparr>ui := identifyPlant_finish (snd (identifyPlant pf w (in_flight rt ! i))) (ui rt),
                    in_flight := take i (in_flight rt) @ drop (Suc i) (in_flight rt)\<rparr>"
    by (auto split: if_splits)
  from i assms(1) obtain a where a: "in_flight rt = [a]"
    by (cases "in_flight rt") (auto simp: in_turn_inv_def split: list.splits)
  with i have i0: "i = 0" by simp
  from a assms(1) have fresh: "error (ui rt) = None" "plantInfo (ui rt) = None"
    by (simp_all add: in_turn_inv_def)
  show ?thesis unfolding rt' using finish_fresh [OF fresh] a i0
    by (simp add: in_turn_inv_def)
qed

lemma run_in_turn_inv:
  "in_turn_inv rt \<Longrightarrow> run_in_turn pf evs rt = Some rt' \<Longrightarrow> in_turn_inv rt'"
proof (induction evs arbitrary: rt)
  case Nil
  then show ?case by simp
next
  case (Cons e evs)
  then show ?case by (auto split: option.splits dest: step_in_turn_inv)
qed

lemma initial_inv: "in_turn_inv initial"
  by (simp add: in_turn_inv_def initial_def)

text \<open>
  An error response whose body is not \<^verbatim>\<open>null\<close> is reported with its status, whatever
  the body holds.
\<close>

lemma upstream_error_carries_status:
  assumes "errorData \<noteq> JNull"
  shows "\<exists>msg. handleResponse pf (Response False status (BodyJson errorData))
           = Inl (Error (''API request failed with status '' @ string_of_nat status @ '': '' @ msg))"
  using assms
  by (cases errorData) (auto simp: handleResponse_def upstream_message_def split: option.splits)

text \<open>ToBoolean of a property read is true exactly for a property with a truthy value.\<close>

lemma truthy_opt_iff: "truthy_opt x \<longleftrightarrow> (\<exists>v. x = Some v \<and> truthy v)"
  by (cases x) auto

text \<open>Scenario B: the service answers 429 with a message.\<close>

lemma too_many_requests:
  "snd (identifyPlant example_platform
          (refused 429 (JObj [(''error'', JObj [(''message'', JStr ''Quota exceeded'')])])) (Some photo))
     = SetError (JStr ''Failed to identify plant: API request failed with status 429: Quota exceeded'')"
  by (simp add: attempt_defs example_defs string_of_nat.simps)

text \<open>
  A decoded value other than \<^verbatim>\<open>null\<close> that lacks a truthy name or scientific name, and
  whose error field is not truthy, is refused as incomplete.
\<close>

lemma incomplete_unless_null:
  assumes "d \<noteq> JNull" "\<not> truthy_opt (get_prop d ''error'')"
    and "\<not> truthy_opt (get_prop d ''name'') \<or> \<not> truthy_opt (get_prop d ''scientificName'')"
  shows "validatePayload pf d = Inl incomplete_error"
  using assms by (cases d) (auto simp: validatePayload_def split: option.splits)

section \<open>The claims\<close>

text \<open>
  C1, as stated, fails: a decoded payload with no error field that has a name and no
  scientific name is refused with the incomplete-data failure; it is not returned as a
  result.
\<close>

theorem incomplete_when_only_name:
  "get_prop name_only ''error'' = None \<and> truthy_opt (get_prop name_only ''name'')
   \<and> validatePayload example_platform name_only = Inl incomplete_error"
  by (simp add: name_only_def validatePayload_def)

text \<open>
  C1, amended: for every decoded payload other than \<^verbatim>\<open>null\<close> that has no error field,
  the parse fails with the incomplete-data failure exactly when the name or the scientific
  name is absent or falsy, and a payload in which both are truthy is returned, unchanged,
  as the result.
\<close>

theorem complete_iff_both_names:
  assumes "d \<noteq> JNull" "get_prop d ''error'' = None"
  shows "(validatePayload pf d = Inl incomplete_error
           \<longleftrightarrow> \<not> truthy_opt (get_prop d ''name'') \<or> \<not> truthy_opt (get_prop d ''scientificName''))
         \<and> (truthy_opt (get_prop d ''name'') \<and> truthy_opt (get_prop d ''scientificName'')
              \<longrightarrow> validatePayload pf d = Inr (SetPlantInfo d))"
  using assms by (cases d) (auto simp: validatePayload_def)

theorem complete_iff_both_names_witness:
  "bare_payload \<noteq> JNull \<and> get_prop bare_payload ''error'' = None
   \<and> validatePayload example_platform bare_payload = Inr (SetPlantInfo bare_payload)
   \<and> validatePayload example_platform bare_payload \<noteq> Inl incomplete_error"
  using complete_iff_both_names [of bare_payload example_platform]
  by (simp add: bare_payload_def)

text \<open>
  C2 at the completion text \<^verbatim>\<open>null\<close>: the decoded payload is \<^verbatim>\<open>null\<close>, which has no error
  field and no name, and the attempt fails with the TypeError of reading \<^verbatim>\<open>error\<close> of
  \<^verbatim>\<open>null\<close>, not with the incomplete-data failure.
\<close>

theorem null_payload_type_error:
  "parseCompletion example_platform ''null''
     = Inl (Error (''Cannot read properties of null (reading '' @ quoted ''error'' @ '')''))
   \<and> parseCompletion example_platform ''null'' \<noteq> Inl incomplete_error"
  by (simp add: attempt_defs example_defs)

text \<open>
  C3, as stated, fails: a decoded payload that contains an error field whose value is the
  empty string, together with both names, is returned as a result; the state does not
  become Failed.
\<close>

theorem falsy_error_field_ignored:
  "get_prop empty_error_payload ''error'' = Some (JStr [])
   \<and> validatePayload example_platform empty_error_payload = Inr (SetPlantInfo empty_error_payload)"
  by (simp add: empty_error_payload_def validatePayload_def)

text \<open>
  C3, amended: for every completion whose decoded payload has a truthy error field, the
  attempt ends without a throw by setting the error to exactly that value, with no prefix;
  the state after the attempt holds that error, is not loading, and its result is the one
  it had before, so no result is produced.
\<close>

theorem truthy_error_surfaced:
  assumes "json_parse pf (cleanResponse t) = Some d" "get_prop d ''error'' = Some e" "truthy e"
  shows "parseCompletion pf t = Inr (SetError e)
         \<and> identifyPlant_finish (catch_error (parseCompletion pf t)) st
             = st\<lparr>error := Some e, loading := False\<rparr>
         \<and> plantInfo (identifyPlant_finish (catch_error (parseCompletion pf t)) st) = plantInfo st"
  using assms
  by (cases d) (auto simp: parseCompletion_def validatePayload_def identifyPlant_finish_def)

text \<open>
  The completion of scenario C: the state becomes Failed with exactly the message of the
  payload.
\<close>

theorem truthy_error_surfaced_witness:
  "json_parse example_platform (cleanResponse could_not_text)
     = Some (JObj [(''error'', JStr could_not_message)])
   \<and> truthy (JStr could_not_message)
   \<and> identifyPlant_finish (catch_error (parseCompletion example_platform could_not_text)) waiting
       = \<lparr>selectedImage = Some photo, imagePreview = Some photo_url, plantInfo = None,
          error = Some (JStr ''Could not identify plant. Please upload a clearer image of a plant.''),
          loading = False\<rparr>"
proof -
  have 1: "json_parse example_platform (cleanResponse could_not_text)
             = Some (JObj [(''error'', JStr could_not_message)])"
    by (simp add: attempt_defs example_defs)
  have 2: "get_prop (JObj [(''error'', JStr could_not_message)]) ''error''
             = Some (JStr could_not_message)"
    by simp
  have 3: "truthy (JStr could_not_message)" by (simp add: could_not_message_def)
  from truthy_error_surfaced [OF 1 2 3, of waiting] 1 3 show ?thesis
    by (simp add: waiting_def could_not_message_def identifyPlant_finish_def)
qed

text \<open>
  C4: when the key is absent or empty, an attempt makes no call to the outside, neither the
  file read nor the HTTP request, and ends with the configuration message as the error;
  the call of \<^verbatim>\<open>identifyPlant\<close> sets that error and clears loading before it returns, and
  leaves no attempt waiting.
\<close>

theorem no_key_no_network:
  assumes "api_key pf = None \<or> api_key pf = Some []"
  shows "identifyPlant pf w fo = ([], SetError (JStr config_message))
         \<and> call_identifyPlant pf fo rt
             = rt\<lparr>ui := (ui rt)\<lparr>error := Some (JStr config_message), loading := False\<rparr>\<rparr>"
  using assms
  by (auto simp: identifyPlant_def identifyPlant_try_def api_key_missing_def config_error_def
      config_message_def call_identifyPlant_def identifyPlant_finish_def identifyPlant_start_def)

theorem no_key_no_network_witness:
  "fst (identifyPlant (example_platform\<lparr>api_key := None\<rparr>) (answered monstera_text) (Some photo)) = []
   \<and> run (example_platform\<lparr>api_key := None\<rparr>) [SelectFile (Some photo)] initial
       = Some \<lparr>ui = \<lparr>selectedImage = Some photo, imagePreview = None, plantInfo = None,
                     error = Some (JStr config_message), loading = False\<rparr>,
               in_flight = [], readers = 1\<rparr>"
  using no_key_no_network [of "example_platform\<lparr>api_key := None\<rparr>" "answered monstera_text" "Some photo"]
    no_key_no_network [of "example_platform\<lparr>api_key := None\<rparr>"]
  by (simp add: initial_def render_def preview_shown_def handleImageUpload_def)

text \<open>
  C5 at an HTTP 500 response whose body is the JSON value \<^verbatim>\<open>null\<close>: the read of
  \<^verbatim>\<open>errorData.error\<close> throws, and the error that the attempt sets carries the message of
  that TypeError and not the status.
\<close>

theorem null_error_body_loses_status:
  "identifyPlant example_platform (refused 500 JNull) (Some photo)
     = ([ReadAsDataURL photo, HttpPost (apiUrl example_platform) ''image/png'' (Some ''AAAA'')],
        SetError (JStr (''Failed to identify plant: Cannot read properties of null (reading ''
                          @ quoted ''error'' @ '')'')))"
  by (simp add: attempt_defs example_defs)

text \<open>
  C6: for every completion text, cleaning the text wrapped in code-fence markers gives the
  cleaned text itself, so the parser ends the same way on both, whatever the decoder; and
  the attempt treats both alike when the text is not empty (the empty text never reaches
  the parser).
\<close>

theorem fenced_parses_alike:
  "cleanResponse (fenced t) = cleanResponse t
   \<and> parseCompletion pf (fenced t) = parseCompletion pf t
   \<and> (t \<noteq> [] \<longrightarrow> handleText pf (Some (JStr (fenced t))) = handleText pf (Some (JStr t)))"
  using cleanResponse_fenced [of t]
  by (simp add: parseCompletion_def handleText_def fenced_def fence_json_def)

theorem fenced_parses_alike_witness:
  "could_not_text \<noteq> []
   \<and> handleText example_platform (Some (JStr (fenced could_not_text)))
       = Inr (SetError (JStr could_not_message))"
proof -
  have "handleText example_platform (Some (JStr could_not_text))
          = Inr (SetError (JStr could_not_message))"
    by (simp add: attempt_defs example_defs)
  moreover have "could_not_text \<noteq> []" by (simp add: could_not_text_def)
  ultimately show ?thesis
    using fenced_parses_alike [of could_not_text example_platform] by simp
qed



text \<open>
  C8, as stated, fails: after the run \<open>race\<close> the state holds two of loading, error and
  result, namely an error and a result.
\<close>

theorem race_holds_error_and_result:
  "map_option (held \<circ> ui) (run example_platform race initial) = Some 2"
  by (simp add: race_def handler_defs held_def attempt_defs example_defs string_of_nat.simps)

text \<open>
  C8, amended: in every state reached from the initial one by file selections, previews,
  retries, resets and attempts that end, where no file is selected while an attempt still
  waits, the state holds at most one of loading, error and result; in particular it never
  holds an error together with a result.
\<close>

theorem one_held_in_turn:
  assumes "run_in_turn pf evs initial = Some rt"
  shows "held (ui rt) \<le> 1 \<and> \<not> (error (ui rt) \<noteq> None \<and> plantInfo (ui rt) \<noteq> None)"
  using run_in_turn_inv [OF initial_inv assms]
  by (auto simp: in_turn_inv_def held_def split: list.splits)

theorem one_held_in_turn_witness:
  "run_in_turn example_platform in_turn initial
     = Some \<lparr>ui = \<lparr>selectedImage = Some photo, imagePreview = Some photo_url,
                   plantInfo = Some monstera, error = None, loading = False\<rparr>,
             in_flight = [], readers = 0\<rparr>
   \<and> held \<lparr>selectedImage = Some photo, imagePreview = Some photo_url,
            plantInfo = Some monstera, error = None, loading = False\<rparr> \<le> 1"
proof -
  have r: "run_in_turn example_platform in_turn initial
          = Some \<lparr>ui = \<lparr>selectedImage = Some photo, imagePreview = Some photo_url,
                        plantInfo = Some monstera, error = None, loading = False\<rparr>,
                  in_flight = [], readers = 0\<rparr>"
    by (simp add: in_turn_def handler_defs attempt_defs example_defs string_of_nat.simps)
  from one_held_in_turn [OF r] r show ?thesis by simp
qed

text \<open>
  C9, as stated, fails: reset is not a constant transition and does not always give the
  Empty state. From the component that waits for its attempt it gives a state that is
  still loading, which is neither the initial state nor the state that reset gives from
  the same component when it is not loading.
\<close>

theorem reset_keeps_loading:
  "resetUpload waiting \<noteq> resetUpload (waiting\<lparr>loading := False\<rparr>)
   \<and> resetUpload waiting \<noteq> ui initial
   \<and> loading (resetUpload waiting)
   \<and> held (resetUpload waiting) = 1"
  by (simp add: resetUpload_def waiting_def initial_def held_def)

text \<open>
  C9, amended: from every state of the component, reset clears selected image, preview,
  result and error, whatever they were, and leaves the loading flag as it was
  (\<^verbatim>\<open>resetUpload\<close> does not write it and does not cancel the attempt that waits); a
  second reset changes nothing, the component then shows the empty upload form, and
  from every state that is not loading the result is the one Empty state, the initial
  state of the component.
\<close>

theorem reset_clears:
  "resetUpload st
     = \<lparr>selectedImage = None, imagePreview = None, plantInfo = None, error = None,
        loading = loading st\<rparr>
   \<and> resetUpload (resetUpload st) = resetUpload st
   \<and> render (resetUpload st) = UploadView
   \<and> (\<not> loading st \<longrightarrow> resetUpload st = ui initial)"
  by (simp add: resetUpload_def render_def preview_shown_def initial_def)

theorem reset_clears_witness:
  "\<not> loading failed
   \<and> resetUpload failed = ui initial
   \<and> resetUpload waiting
       = \<lparr>selectedImage = None, imagePreview = None, plantInfo = None, error = None,
          loading = True\<rparr>"
proof -
  have nl: "\<not> loading failed" by (simp add: failed_def)
  from reset_clears [of failed] nl have "resetUpload failed = ui initial" by blast
  moreover from reset_clears [of waiting]
  have "resetUpload waiting
          = \<lparr>selectedImage = None, imagePreview = None, plantInfo = None, error = None,
             loading = True\<rparr>"
    by (simp add: waiting_def)
  ultimately show ?thesis using nl by simp
qed

text \<open>
  C10: the attempt ends by setting the error to the payload's error value exactly when the
  payload has an error field and its value is truthy; when the field is there and falsy it
  is ignored and the completeness check on name and scientific name decides; the payload
  that has only an empty error string is refused as incomplete.
\<close>

theorem error_branch_iff_truthy:
  "(validatePayload pf d = Inr (SetError e) \<longleftrightarrow> get_prop d ''error'' = Some e \<and> truthy e)
   \<and> (get_prop d ''error'' = Some e \<and> \<not> truthy e \<longrightarrow>
        validatePayload pf d
          = (if \<not> truthy_opt (get_prop d ''name'') \<or> \<not> truthy_opt (get_prop d ''scientificName'')
             then Inl incomplete_error else Inr (SetPlantInfo d)))
   \<and> validatePayload pf (JObj [(''error'', JStr [])]) = Inl incomplete_error"
  by (cases d) (auto simp: validatePayload_def incomplete_error_def truthy_opt_iff)

theorem error_branch_iff_truthy_witness:
  "get_prop empty_error_payload ''error'' = Some (JStr []) \<and> \<not> truthy (JStr [])
   \<and> validatePayload example_platform empty_error_payload = Inr (SetPlantInfo empty_error_payload)
   \<and> validatePayload example_platform empty_error_payload \<noteq> Inr (SetError (JStr []))"
  using error_branch_iff_truthy [of example_platform empty_error_payload "JStr []"]
  by (simp add: empty_error_payload_def)

end
